theory Spec2Isabelle
  imports Main "HOL-Library.Char_ord" "HOL-Library.List_Lexorder" "HOL-Library.Sublist"
begin

section \<open>Values, errors and outcomes\<close>

text \<open>
  A Go \<open>string\<close> and a Go \<open>[]byte\<close> are both sequences of bytes; an Isabelle \<open>char\<close> is
  one byte, ordered by its numeric value (\<open>Char_ord\<close>), and lists are ordered
  lexicographically (\<open>List_Lexorder\<close>), which is the order of \<open>bytes.Compare\<close>.
  A \<open>[]byte\<close> that the code tests against \<open>nil\<close> is a \<open>bytes option\<close>, \<open>None\<close> being \<open>nil\<close>.
\<close>

type_synonym bytes = string

datatype error =
    ErrDatabaseNotOpen
  | ErrDiskIO
  | ErrBucketNameRequired
  | ErrKeyRequired
  | ErrKeyTooLarge
  | ErrValueTooLarge
  | ErrorNew string
  | ErrorWrap error string

text \<open>
  A Go call either returns or panics. The panics that matter here are an index out of
  range (the index and the length), a negative index, an assignment to an entry of a nil
  map, and whatever value the code of a caller panics with.
\<close>

datatype panic =
    IndexOutOfRange nat nat
  | IndexNegative int
  | NilMapAssignment
  | PanicValue string

datatype 'a go = Done 'a | Panic panic

section \<open>The bbolt library, as the storage code uses it\<close>

text \<open>
  bbolt is an external library. Its documented behaviour is modelled as follows. A bucket
  is a B+tree: its entries are kept in ascending byte order of their keys, each key once.
  The root of the database maps bucket names to buckets in the same way.
\<close>

type_synonym 'v tree = "(string \<times> 'v) list"
type_synonym bucket = "bytes tree"
type_synonym store = "bucket tree"

fun tree_put :: "string \<Rightarrow> 'v \<Rightarrow> 'v tree \<Rightarrow> 'v tree" where
  "tree_put k v [] = [(k, v)]"
| "tree_put k v ((k', v') # rest) =
     (if k < k' then (k, v) # (k', v') # rest
      else if k = k' then (k, v) # rest
      else (k', v') # tree_put k v rest)"

fun tree_delete :: "string \<Rightarrow> 'v tree \<Rightarrow> 'v tree" where
  "tree_delete k [] = []"
| "tree_delete k ((k', v') # rest) =
     (if k = k' then rest else (k', v') # tree_delete k rest)"

text \<open>The root and each of its buckets hold strictly ascending keys.\<close>

definition tree_ok :: "'v tree \<Rightarrow> bool" where
  "tree_ok t = sorted_wrt (<) (map fst t)"

definition store_ok :: "store \<Rightarrow> bool" where
  "store_ok s = (tree_ok s \<and> list_all (\<lambda>(ns, b). tree_ok b) s)"

text \<open>
  An opened database: the committed root, whether \<open>Close\<close> has been called, and whether
  the disk accepts the next commit.
\<close>

record BoltDB =
  buckets :: store
  opened :: bool
  disk_ok :: bool

definition MaxKeySize :: nat where
  "MaxKeySize = 32768"

definition MaxValueSize :: nat where
  "MaxValueSize = 2147483646"

text \<open>\<open>tx.Bucket(name)\<close>: the bucket, or nil.\<close>

definition tx_Bucket :: "string \<Rightarrow> store \<Rightarrow> bucket option" where
  "tx_Bucket name tx = map_of tx name"

text \<open>\<open>tx.CreateBucketIfNotExists(name)\<close> fails on an empty name only.\<close>

definition tx_CreateBucketIfNotExists :: "string \<Rightarrow> store \<Rightarrow> error option \<times> store" where
  "tx_CreateBucketIfNotExists name tx =
     (if name = [] then (Some ErrBucketNameRequired, tx)
      else case map_of tx name of
             Some b \<Rightarrow> (None, tx)
           | None \<Rightarrow> (None, tree_put name [] tx))"

text \<open>
  A bucket obtained from a transaction is a handle: what is done to it is done in place
  to the bucket of that name in the transaction.
\<close>

fun in_bucket :: "string \<Rightarrow> (bucket \<Rightarrow> bucket) \<Rightarrow> store \<Rightarrow> store" where
  "in_bucket name f [] = []"
| "in_bucket name f ((n, b) # rest) =
     (if n = name then (n, f b) # rest else (n, b) # in_bucket name f rest)"

text \<open>\<open>bucket.Get(key)\<close>: the value, or nil when the key is absent.\<close>

definition bucket_Get :: "string \<Rightarrow> bucket \<Rightarrow> bytes option" where
  "bucket_Get key b = map_of b key"

text \<open>
  \<open>bucket.Put(key, value)\<close> on the bucket called \<open>name\<close> of a writable transaction.
\<close>

definition bucket_Put :: "string \<Rightarrow> string \<Rightarrow> bytes \<Rightarrow> store \<Rightarrow> error option \<times> store" where
  "bucket_Put name key val tx =
     (if length key = 0 then (Some ErrKeyRequired, tx)
      else if length key > MaxKeySize then (Some ErrKeyTooLarge, tx)
      else if length val > MaxValueSize then (Some ErrValueTooLarge, tx)
      else (None, in_bucket name (tree_put key val) tx))"

text \<open>\<open>bucket.Delete(key)\<close>: an absent key is not an error.\<close>

definition bucket_Delete :: "string \<Rightarrow> string \<Rightarrow> store \<Rightarrow> error option \<times> store" where
  "bucket_Delete name key tx =
     (None, in_bucket name (tree_delete key) tx)"

text \<open>
  A cursor is the list of entries from its position on. \<open>Seek\<close> moves to the first key
  that is not below the sought one.
\<close>

definition cursor_Seek :: "string \<Rightarrow> bucket \<Rightarrow> bucket" where
  "cursor_Seek seek b = dropWhile (\<lambda>(k, v). k < seek) b"

text \<open>\<open>tx.Commit()\<close> and \<open>tx.Rollback()\<close> of a writable transaction that is still open.\<close>

definition tx_Commit :: "BoltDB \<Rightarrow> store \<Rightarrow> error option \<times> BoltDB" where
  "tx_Commit db tx =
     (if disk_ok db then (None, db\<lparr>buckets := tx\<rparr>) else (Some ErrDiskIO, db))"

definition tx_Rollback :: "BoltDB \<Rightarrow> store \<Rightarrow> error option \<times> BoltDB" where
  "tx_Rollback db tx = (None, db)"

text \<open>
  \<open>db.Update(fn)\<close>: begin, run \<open>fn\<close>, roll back when it returns an error or panics,
  commit otherwise. \<open>'c\<close> holds the variables that the closure captures and assigns;
  \<open>c0\<close> is their value before the call.
\<close>

type_synonym 'c txfn = "store \<Rightarrow> (error option \<times> 'c \<times> store) go"

definition db_Update :: "BoltDB \<Rightarrow> 'c \<Rightarrow> 'c txfn \<Rightarrow> (error option \<times> 'c) go \<times> BoltDB" where
  "db_Update db c0 fn =
     (if \<not> opened db then (Done (Some ErrDatabaseNotOpen, c0), db)
      else case fn (buckets db) of
             Panic p \<Rightarrow> (Panic p, db)
           | Done (Some err, c, tx) \<Rightarrow> (Done (Some err, c), snd (tx_Rollback db tx))
           | Done (None, c, tx) \<Rightarrow>
               (case tx_Commit db tx of (err, db') \<Rightarrow> (Done (err, c), db')))"

text \<open>\<open>db.View(fn)\<close>: a read-only transaction; these closures do not panic.\<close>

definition db_View :: "BoltDB \<Rightarrow> 'c \<Rightarrow> (store \<Rightarrow> error option \<times> 'c) \<Rightarrow> error option \<times> 'c" where
  "db_View db c0 fn =
     (if \<not> opened db then (Some ErrDatabaseNotOpen, c0) else fn (buckets db))"

section \<open>The storage layer\<close>

subsection \<open>Write, WriteMany, Read, ReadPrefix, Delete\<close>

definition writeFunc :: "string \<Rightarrow> string \<Rightarrow> bytes \<Rightarrow> unit txfn" where
  "writeFunc namespace key val tx =
     (case tx_CreateBucketIfNotExists namespace tx of
        (Some err, tx') \<Rightarrow> Done (Some err, (), tx')
      | (None, tx') \<Rightarrow>
          (case bucket_Put namespace key val tx' of (err, tx'') \<Rightarrow> Done (err, (), tx'')))"

definition Write :: "BoltDB \<Rightarrow> string \<Rightarrow> string \<Rightarrow> bytes \<Rightarrow> error option go \<times> BoltDB" where
  "Write b namespace key val =
     (case db_Update b () (writeFunc namespace key val) of
        (r, b') \<Rightarrow> (map_go fst r, b'))"

text \<open>
  The loop of \<open>WriteMany\<close>, from index \<open>i\<close> on. Indexing \<open>keys[i]\<close> or \<open>values[i]\<close> out of
  range panics; \<open>keys[i]\<close> is evaluated first.
\<close>

function WriteMany_loop ::
  "string list \<Rightarrow> string list \<Rightarrow> bytes list \<Rightarrow> nat \<Rightarrow> unit txfn" where
  "WriteMany_loop namespaces keys vals i tx =
     (if i < length namespaces then
        (case tx_CreateBucketIfNotExists (namespaces ! i) tx of
           (Some err, tx') \<Rightarrow> Done (Some err, (), tx')
         | (None, tx') \<Rightarrow>
             if \<not> i < length keys then Panic (IndexOutOfRange i (length keys))
             else if \<not> i < length vals then Panic (IndexOutOfRange i (length vals))
             else (case bucket_Put (namespaces ! i) (keys ! i) (vals ! i) tx' of
                     (Some err, tx'') \<Rightarrow> Done (Some err, (), tx'')
                   | (None, tx'') \<Rightarrow> WriteMany_loop namespaces keys vals (Suc i) tx''))
      else Done (None, (), tx))"
  by pat_completeness auto
termination
  by (relation "measure (\<lambda>(namespaces, keys, vals, i, tx). length namespaces - i)") auto

declare WriteMany_loop.simps [simp del]

definition WriteMany_guard :: "string list \<Rightarrow> string list \<Rightarrow> bytes list \<Rightarrow> bool" where
  "WriteMany_guard namespaces keys vals =
     (length namespaces \<noteq> length keys \<and> length namespaces \<noteq> length vals)"

definition WriteMany ::
  "BoltDB \<Rightarrow> string list \<Rightarrow> string list \<Rightarrow> bytes list \<Rightarrow> error option go \<times> BoltDB" where
  "WriteMany b namespaces keys vals =
     (if WriteMany_guard namespaces keys vals
      then (Done (Some (ErrorNew ''namespaces, keys, and values, are not of equal length'')), b)
      else case db_Update b () (WriteMany_loop namespaces keys vals 0) of
             (r, b') \<Rightarrow> (map_go fst r, b'))"

definition Read :: "BoltDB \<Rightarrow> string \<Rightarrow> string \<Rightarrow> bytes option \<times> error option" where
  "Read b namespace key =
     (case db_View b None
             (\<lambda>tx. case tx_Bucket namespace tx of
                     None \<Rightarrow> (None, None)
                   | Some bucket \<Rightarrow> (None, bucket_Get key bucket))
      of (err, result) \<Rightarrow> (result, err))"

text \<open>
  The loop of \<open>ReadPrefix\<close>: the cursor is at the head of the list; the loop ends at the
  end of the bucket or at the first key that does not start with the prefix.
\<close>

fun ReadPrefix_loop :: "string \<Rightarrow> bucket \<Rightarrow> (string \<rightharpoonup> bytes) \<Rightarrow> (string \<rightharpoonup> bytes)" where
  "ReadPrefix_loop pre [] result = result"
| "ReadPrefix_loop pre ((k, v) # rest) result =
     (if prefix pre k then ReadPrefix_loop pre rest (result(k \<mapsto> v)) else result)"

definition ReadPrefix ::
  "BoltDB \<Rightarrow> string \<Rightarrow> string \<Rightarrow> (string \<rightharpoonup> bytes) \<times> error option" where
  "ReadPrefix b namespace pre =
     (case db_View b Map.empty
             (\<lambda>tx. case tx_Bucket namespace tx of
                     None \<Rightarrow> (None, Map.empty)
                   | Some bucket \<Rightarrow>
                       (None, ReadPrefix_loop pre (cursor_Seek pre bucket) Map.empty))
      of (err, result) \<Rightarrow> (result, err))"

definition Delete :: "BoltDB \<Rightarrow> string \<Rightarrow> string \<Rightarrow> error option go \<times> BoltDB" where
  "Delete b namespace key =
     (case db_Update b ()
             (\<lambda>tx. case tx_Bucket namespace tx of
                     None \<Rightarrow>
                       Done (Some (ErrorNew (''namespace<'' @ namespace @ ''> does not exist'')), (), tx)
                   | Some bucket \<Rightarrow>
                       (case bucket_Delete namespace key tx of (err, tx') \<Rightarrow> Done (err, (), tx')))
      of (r, b') \<Rightarrow> (map_go fst r, b'))"

subsection \<open>Execute\<close>

text \<open>
  The transaction handed to a business-logic function offers \<open>boltTx.Write\<close>. Such a
  function is therefore a tree: it returns a result and an error, or it writes and goes
  on according to the error of the write, or it panics.
\<close>

datatype 'a BusinessLogicFunc =
    Return 'a "error option"
  | TxWrite string string bytes "error option \<Rightarrow> 'a BusinessLogicFunc"
  | Panics panic

text \<open>
  \<open>boltTx.Write\<close> runs \<open>writeFunc\<close> on the transaction; \<open>writeFunc\<close> never panics, so
  the second case below is never taken.
\<close>

definition boltTx_Write :: "string \<Rightarrow> string \<Rightarrow> bytes \<Rightarrow> store \<Rightarrow> error option \<times> store" where
  "boltTx_Write namespace key val tx =
     (case writeFunc namespace key val tx of
        Done (err, u, tx') \<Rightarrow> (err, tx')
      | Panic p \<Rightarrow> (None, tx))"

primrec call :: "'a BusinessLogicFunc \<Rightarrow> store \<Rightarrow> ('a \<times> error option) go \<times> store" where
  "call (Return result err) = (\<lambda>tx. (Done (result, err), tx))"
| "call (TxWrite namespace key val cont) =
     (\<lambda>tx. case boltTx_Write namespace key val tx of (err, tx') \<Rightarrow> call (cont err) tx')"
| "call (Panics p) = (\<lambda>tx. (Panic p, tx))"

text \<open>
  The value that the last successful write of the function to \<open>(namespace, key)\<close> stored,
  when the function runs on \<open>tx\<close>; \<open>acc\<close> is the value so far.
\<close>

primrec last_written ::
  "'a BusinessLogicFunc \<Rightarrow> string \<Rightarrow> string \<Rightarrow> bytes option \<Rightarrow> store \<Rightarrow> bytes option" where
  "last_written (Return result err) = (\<lambda>namespace key acc tx. acc)"
| "last_written (TxWrite ns k v cont) =
     (\<lambda>namespace key acc tx.
        case boltTx_Write ns k v tx of
          (err, tx') \<Rightarrow>
            last_written (cont err) namespace key
              (if err = None \<and> ns = namespace \<and> k = key then Some v else acc) tx')"
| "last_written (Panics p) = (\<lambda>namespace key acc tx. acc)"

definition Execute ::
  "BoltDB \<Rightarrow> 'a BusinessLogicFunc \<Rightarrow> 'w list \<Rightarrow> ('a option \<times> error option) go \<times> BoltDB" where
  "Execute b businessLogicFunc watchKeys =
     (if \<not> opened b
      then (Done (None, Some (ErrorWrap ErrDatabaseNotOpen ''beginning transaction'')), b)
      else case call businessLogicFunc (buckets b) of
             (Panic p, tx) \<Rightarrow> (Panic p, snd (tx_Rollback b tx))
           | (Done (result, Some err), tx) \<Rightarrow>
               (case tx_Rollback b tx of
                  (Some rollbackErr, b') \<Rightarrow>
                    (Done (None, Some (ErrorWrap rollbackErr ''rolling back transaction'')), b')
                | (None, b') \<Rightarrow>
                    (Done (None, Some (ErrorWrap err ''executing business logic func'')), b'))
           | (Done (result, None), tx) \<Rightarrow>
               (case tx_Commit b tx of
                  (Some err, b') \<Rightarrow>
                    (Done (None, Some (ErrorWrap err ''committing transaction'')), b')
                | (None, b') \<Rightarrow> (Done (Some result, None), b')))"

subsection \<open>Updaters\<close>

text \<open>
  The \<open>Updater\<close> interface: any implementation of \<open>Update\<close> and \<open>Validate\<close>, each of
  which returns or panics. The bytes that \<open>Update\<close> returns may be nil. A
  \<open>ResponseSettingUpdater\<close> is the updater that it is once \<open>SetUpdatedResponse\<close> has been
  called with a response, which may be nil as well.
\<close>

record Updater =
  Updater_Update :: "bytes \<Rightarrow> (bytes option \<times> error option) go"
  Updater_Validate :: "bytes \<Rightarrow> error option go"

type_synonym ResponseSettingUpdater = "bytes option \<Rightarrow> Updater"

text \<open>
  The JSON library is external: \<open>Unmarshal\<close> into a \<open>map[string]any\<close> yields a map, or
  a nil map (\<open>None\<close>) for the document \<open>null\<close>, or an error; \<open>Marshal\<close> yields bytes or
  an error. Both are parameters.
\<close>

record 'j JSON =
  Unmarshal :: "bytes \<Rightarrow> error + 'j tree option"
  Marshal :: "'j tree option \<Rightarrow> error + bytes"

text \<open>The assignments \<open>model[k] = val\<close>; assigning to an entry of a nil map panics.\<close>

fun assign_all :: "(string \<times> 'j) list \<Rightarrow> 'j tree option \<Rightarrow> 'j tree option go" where
  "assign_all [] model = Done model"
| "assign_all ((k, val) # rest) None = Panic NilMapAssignment"
| "assign_all ((k, val) # rest) (Some m) = assign_all rest (Some (tree_put k val m))"

definition UpdaterWithMap_Update ::
  "'j JSON \<Rightarrow> (string \<times> 'j) list \<Rightarrow> bytes \<Rightarrow> (bytes option \<times> error option) go" where
  "UpdaterWithMap_Update json Values v =
     (case Unmarshal json v of
        Inl err \<Rightarrow> Done (None, Some (ErrorWrap err ''unmarshalling json''))
      | Inr model \<Rightarrow>
          (case assign_all Values model of
             Panic p \<Rightarrow> Panic p
           | Done model' \<Rightarrow>
               (case Marshal json model' of
                  Inl err \<Rightarrow> Done (None, Some (ErrorWrap err ''marshalling updated struct''))
                | Inr data \<Rightarrow> Done (Some data, None))))"

definition UpdaterWithMap_Validate :: "bytes \<Rightarrow> error option go" where
  "UpdaterWithMap_Validate v = Done None"

definition NewUpdater :: "'j JSON \<Rightarrow> (string \<times> 'j) list \<Rightarrow> Updater" where
  "NewUpdater json vals =
     \<lparr>Updater_Update = UpdaterWithMap_Update json vals,
      Updater_Validate = UpdaterWithMap_Validate\<rparr>"

subsection \<open>Update and UpdateValueAndOperation\<close>

text \<open>
  bbolt keeps the slice that \<open>Put\<close> was given in the node of the write transaction: a
  value put as nil is nil for a \<open>Get\<close> in that same transaction, and is an empty value
  once committed. The update path is the only one that reads what it has put, so its
  transaction is the root together with the pairs that hold a nil put in this
  transaction. Such a transaction begins without any, and the commit takes the root.
\<close>

type_synonym update_tx = "store \<times> (string \<times> string) list"

definition nil_to_empty :: "bytes option \<Rightarrow> bytes" where
  "nil_to_empty v = (case v of None \<Rightarrow> [] | Some d \<Rightarrow> d)"

definition Get_in_tx :: "string \<Rightarrow> string \<Rightarrow> bucket \<Rightarrow> update_tx \<Rightarrow> bytes option" where
  "Get_in_tx name key b utx =
     (if (name, key) \<in> set (snd utx) then None else bucket_Get key b)"

definition Put_in_tx ::
  "string \<Rightarrow> string \<Rightarrow> bytes option \<Rightarrow> update_tx \<Rightarrow> error option \<times> update_tx" where
  "Put_in_tx name key val utx =
     (case bucket_Put name key (nil_to_empty val) (fst utx) of
        (Some err, tx') \<Rightarrow> (Some err, (tx', snd utx))
      | (None, tx') \<Rightarrow>
          (None, (tx', if val = None then (name, key) # snd utx
                       else removeAll (name, key) (snd utx))))"

definition in_write_tx :: "(update_tx \<Rightarrow> (error option \<times> 'c \<times> update_tx) go) \<Rightarrow> 'c txfn" where
  "in_write_tx fn tx =
     (case fn (tx, []) of
        Panic p \<Rightarrow> Panic p
      | Done (err, c, utx) \<Rightarrow> Done (err, c, fst utx))"

definition updateTx ::
  "update_tx \<Rightarrow> string \<Rightarrow> string \<Rightarrow> Updater \<Rightarrow> (bytes option \<times> error option \<times> update_tx) go" where
  "updateTx tx namespace key updater =
     (case tx_Bucket namespace (fst tx) of
        None \<Rightarrow>
          Done (None, Some (ErrorNew (''namespace<'' @ namespace @ ''> does not exist'')), tx)
      | Some bucket \<Rightarrow>
          (case Get_in_tx namespace key bucket tx of
             None \<Rightarrow> Done (None, Some (ErrorNew (''key not found '' @ key)), tx)
           | Some v \<Rightarrow>
               (case Updater_Validate updater v of
                  Panic p \<Rightarrow> Panic p
                | Done (Some err) \<Rightarrow> Done (None, Some (ErrorWrap err ''validating update''), tx)
                | Done None \<Rightarrow>
                    (case Updater_Update updater v of
                       Panic p \<Rightarrow> Panic p
                     | Done (data, Some err) \<Rightarrow> Done (None, Some err, tx)
                     | Done (data, None) \<Rightarrow>
                         (case Put_in_tx namespace key data tx of
                            (Some err, tx') \<Rightarrow>
                              Done (None, Some (ErrorWrap err ''writing to db''), tx')
                          | (None, tx') \<Rightarrow> Done (data, None, tx'))))))"

text \<open>\<open>updatedData\<close> is the value behind the pointer before the call; the result holds it after.\<close>

definition updateTxFn ::
  "string \<Rightarrow> string \<Rightarrow> Updater \<Rightarrow> bytes option \<Rightarrow> update_tx \<Rightarrow>
   (error option \<times> bytes option \<times> update_tx) go" where
  "updateTxFn namespace key updater updatedData tx =
     (case updateTx tx namespace key updater of
        Panic p \<Rightarrow> Panic p
      | Done (data, Some err, tx') \<Rightarrow> Done (Some err, updatedData, tx')
      | Done (data, None, tx') \<Rightarrow> Done (None, data, tx'))"

definition UpdateValueAndOperation ::
  "BoltDB \<Rightarrow> string \<Rightarrow> string \<Rightarrow> Updater \<Rightarrow> string \<Rightarrow> string \<Rightarrow> ResponseSettingUpdater \<Rightarrow>
   (bytes option \<times> bytes option \<times> error option) go \<times> BoltDB" where
  "UpdateValueAndOperation b namespace key updater opNamespace opKey opUpdater =
     (case db_Update b (None, None)
             (in_write_tx
                (\<lambda>tx. case updateTxFn namespace key updater None tx of
                        Panic p \<Rightarrow> Panic p
                      | Done (Some err, first, tx') \<Rightarrow> Done (Some err, (first, None), tx')
                      | Done (None, first, tx') \<Rightarrow>
                          (case updateTxFn opNamespace opKey (opUpdater first) None tx' of
                             Panic p \<Rightarrow> Panic p
                           | Done (err, op, tx'') \<Rightarrow> Done (err, (first, op), tx''))))
      of (r, b') \<Rightarrow> (map_go (\<lambda>(err, first, op). (first, op, err)) r, b'))"

definition Update ::
  "'j JSON \<Rightarrow> BoltDB \<Rightarrow> string \<Rightarrow> string \<Rightarrow> (string \<times> 'j) list \<Rightarrow>
   (bytes option \<times> error option) go \<times> BoltDB" where
  "Update json b namespace key vals =
     (case db_Update b None
             (in_write_tx (updateTxFn namespace key (NewUpdater json vals) None)) of
        (r, b') \<Rightarrow> (map_go (\<lambda>(err, updatedData). (updatedData, err)) r, b'))"

section \<open>The credential storage and its status-list indexes\<close>

text \<open>
  The credential storage keeps, under the namespace \<open>status-list-index\<close>, the shuffled
  pool (key \<open>status-list-indexes\<close>) and the cursor (key \<open>current-list-index\<close>), both as
  JSON, and the stored credentials under the namespace \<open>credential\<close>, each under its
  prefix key. Its database is a \<open>storage.ServiceStorage\<close> whose \<open>ReadTx\<close>, \<open>WriteTx\<close> and
  \<open>WriteMany\<close> are outside the sources, as is the JSON library. The model therefore
  holds what the two keys decode to (nothing stored, bytes that do not decode, or a
  value), the stored credentials by key, and whether the database refuses a read or a
  write. The revocation index of a credential is the \<open>statusListIndex\<close> of its
  \<open>credentialStatus\<close>. The issuer of a credential is taken to be a string, as the code
  assumes.
\<close>

datatype 'a blob = Missing | Garbled | Holds 'a

record StoredCredential =
  sc_ID :: string
  sc_CredentialID :: string
  sc_Issuer :: string
  sc_Subject :: string
  sc_Schema :: string
  sc_Revoked :: bool
  sc_statusListIndex :: "int option"

record Storage =
  status_list_indexes :: "int list blob"
  current_list_index :: "int blob"
  credential :: "StoredCredential tree"
  read_fails :: bool
  write_fails :: bool

datatype stored_value = IndexValue int | CredentialValue StoredCredential

record WriteContext =
  wc_namespace :: string
  wc_key :: string
  wc_value :: stored_value


definition credentialNamespace :: string where
  "credentialNamespace = ''credential''"

definition statusListIndexNamespace :: string where
  "statusListIndexNamespace = ''status-list-index''"

definition statusListIndexesKey :: string where
  "statusListIndexesKey = ''status-list-indexes''"

definition currentListIndexKey :: string where
  "currentListIndexKey = ''current-list-index''"




text \<open>
  What a write of a value under a namespace and a key does to the part of the database
  that the model holds; the other namespaces are outside it.
\<close>

definition db_write :: "WriteContext \<Rightarrow> Storage \<Rightarrow> Storage" where
  "db_write wc db =
     (case wc_value wc of
        IndexValue i \<Rightarrow>
          if wc_namespace wc = statusListIndexNamespace \<and> wc_key wc = currentListIndexKey
          then db\<lparr>current_list_index := Holds i\<rparr> else db
      | CredentialValue c \<Rightarrow>
          if wc_namespace wc = credentialNamespace
          then db\<lparr>credential := tree_put (wc_key wc) c (credential db)\<rparr> else db)"

definition db_WriteTx :: "WriteContext \<Rightarrow> Storage \<Rightarrow> error option \<times> Storage" where
  "db_WriteTx wc db = (if write_fails db then (Some ErrDiskIO, db) else (None, db_write wc db))"



text \<open>
  \<open>GetIncrementStatusListIndexWriteContext\<close>: the write of the cursor plus one. There is
  no bound. The cursor is a Go \<open>int\<close>; it is an unbounded integer here, its 64 bits being
  out of reach.
\<close>

definition GetIncrementStatusListIndexWriteContext :: "Storage \<Rightarrow> error + WriteContext" where
  "GetIncrementStatusListIndexWriteContext cs =
     (if read_fails cs then Inl (ErrorWrap ErrDiskIO ''could not get list index'')
      else case current_list_index cs of
             Missing \<Rightarrow>
               Inl (ErrorWrap (ErrorNew ''invalid JSON'') ''could not unmarshal unique numbers'')
           | Garbled \<Rightarrow>
               Inl (ErrorWrap (ErrorNew ''invalid JSON'') ''could not unmarshal unique numbers'')
           | Holds index \<Rightarrow>
               Inr \<lparr>wc_namespace = statusListIndexNamespace, wc_key = currentListIndexKey,
                    wc_value = IndexValue (index + 1)\<rparr>)"

definition IncrementStatusListIndex :: "Storage \<Rightarrow> error option \<times> Storage" where
  "IncrementStatusListIndex cs =
     (case GetIncrementStatusListIndexWriteContext cs of
        Inl err \<Rightarrow>
          (Some (ErrorWrap err ''problem getting increment status listIndex writeContext''), cs)
      | Inr wc \<Rightarrow>
          (case db_WriteTx wc cs of
             (Some err, cs') \<Rightarrow>
               (Some (ErrorWrap err ''problem writing current list index to db''), cs')
           | (None, cs') \<Rightarrow> (None, cs')))"







subsection \<open>Issuance\<close>





text \<open>
  The revocation indices of a list of credentials, of all stored credentials, and of the
  stored credentials of one \<open>(issuer, schema)\<close> pair, that is, of one status-list
  credential.
\<close>

definition indices_of :: "StoredCredential list \<Rightarrow> int list" where
  "indices_of cl =
     concat (map (\<lambda>c. case sc_statusListIndex c of None \<Rightarrow> [] | Some i \<Rightarrow> [i]) cl)"



section \<open>Sample values\<close>

text \<open>
  A database with a manifest and a pending operation, an updater that appends a mark to
  the stored value, an updater that returns nil, an operation updater that stores the
  response it was given behind the word done, and a JSON library that knows one document.
  A credential storage on an empty database, the shuffle that leaves \<open>1..bitStringLength\<close>
  in order, and two requests for revocable credentials of one issuer and schema.
\<close>

definition example_db :: BoltDB where
  "example_db =
     \<lparr>buckets = [(''manifest'', [(''m1'', ''a'')]), (''operation'', [(''op1'', ''pending'')])],
      opened = True, disk_ok = True\<rparr>"

definition example_updater :: Updater where
  "example_updater =
     \<lparr>Updater_Update = (\<lambda>v. Done (Some (v @ ''!''), None)),
      Updater_Validate = (\<lambda>v. Done None)\<rparr>"

definition example_nil_updater :: Updater where
  "example_nil_updater =
     \<lparr>Updater_Update = (\<lambda>v. Done (None, None)), Updater_Validate = (\<lambda>v. Done None)\<rparr>"

definition example_opUpdater :: ResponseSettingUpdater where
  "example_opUpdater response =
     \<lparr>Updater_Update = (\<lambda>v. Done (Some (''done:'' @ nil_to_empty response), None)),
      Updater_Validate = (\<lambda>v. Done None)\<rparr>"

definition example_json :: "nat JSON" where
  "example_json =
     \<lparr>Unmarshal = (\<lambda>v. if v = ''{}'' then Inr (Some []) else Inl (ErrorNew ''unexpected input'')),
      Marshal = (\<lambda>m. Inr ''{}'')\<rparr>"






section \<open>Facts about trees and transactions\<close>

text \<open>What a reader finds at \<open>(namespace, key)\<close> in a root.\<close>

definition lookup :: "store \<Rightarrow> string \<Rightarrow> string \<Rightarrow> bytes option" where
  "lookup tx namespace key =
     (case tx_Bucket namespace tx of None \<Rightarrow> None | Some bucket \<Rightarrow> bucket_Get key bucket)"


lemma map_of_tree_put:
  "map_of (tree_put k v t) k' = (if k' = k then Some v else map_of t k')"
  by (induction t) auto

lemma tree_delete_absent: "map_of t k = None \<Longrightarrow> tree_delete k t = t"
  by (induction t) (auto split: if_splits)

lemma map_of_in_bucket:
  "map_of (in_bucket name f tx) n = (if n = name then map_option f (map_of tx n) else map_of tx n)"
  by (induction tx) auto

lemma in_bucket_same:
  "map_of tx name = Some bk \<Longrightarrow> f bk = bk \<Longrightarrow> in_bucket name f tx = tx"
  by (induction tx) (auto split: if_splits)

lemma in_bucket_absent: "map_of tx name = None \<Longrightarrow> in_bucket name f tx = tx"
  by (induction tx) (auto split: if_splits)

lemma lookup_in_bucket_put:
  "map_of tx name \<noteq> None \<Longrightarrow>
   lookup (in_bucket name (tree_put key val) tx) ns k =
     (if ns = name \<and> k = key then Some val else lookup tx ns k)"
  by (auto simp: lookup_def tx_Bucket_def bucket_Get_def map_of_in_bucket map_of_tree_put
           split: option.splits)

lemma Read_lookup: "opened b \<Longrightarrow> Read b ns k = (lookup (buckets b) ns k, None)"
  by (simp add: Read_def db_View_def lookup_def split: option.splits)

lemma map_of_CreateBucketIfNotExists:
  "tx_CreateBucketIfNotExists name tx = (None, tx') \<Longrightarrow> map_of tx' name \<noteq> None"
  by (auto simp: tx_CreateBucketIfNotExists_def map_of_tree_put split: if_splits option.splits)

lemma lookup_CreateBucketIfNotExists:
  "tx_CreateBucketIfNotExists name tx = (e, tx') \<Longrightarrow> lookup tx' ns k = lookup tx ns k"
  by (auto simp: tx_CreateBucketIfNotExists_def lookup_def tx_Bucket_def bucket_Get_def
           map_of_tree_put split: if_splits option.splits)

lemma writeFunc_lookup:
  "writeFunc namespace key val tx = Done (None, u, tx') \<Longrightarrow>
   lookup tx' ns k = (if ns = namespace \<and> k = key then Some val else lookup tx ns k)"
  unfolding writeFunc_def bucket_Put_def
  by (auto split: prod.splits option.splits if_splits
           simp: lookup_in_bucket_put map_of_CreateBucketIfNotExists lookup_CreateBucketIfNotExists)

lemma db_Update_Done_None:
  "db_Update b c0 fn = (Done (None, c), b') \<Longrightarrow>
   opened b \<and> disk_ok b \<and> (\<exists>tx. fn (buckets b) = Done (None, c, tx) \<and> b' = b\<lparr>buckets := tx\<rparr>)"
  by (auto simp: db_Update_def tx_Commit_def tx_Rollback_def
           split: if_splits go.splits option.splits prod.splits)

lemma db_Update_unchanged:
  "db_Update b c0 fn = (r, b') \<Longrightarrow> (\<forall>c. r \<noteq> Done (None, c)) \<Longrightarrow> b' = b"
  by (auto simp: db_Update_def tx_Commit_def tx_Rollback_def
           split: if_splits go.splits option.splits prod.splits)

section \<open>Read of an absent namespace or key\<close>

text \<open>
  C3. On an open database, \<open>Read(ns, k)\<close> returns a nil value and no error when the
  namespace \<open>ns\<close> does not exist, and also when it exists and holds no key \<open>k\<close>.
\<close>

theorem Read_absent:
  assumes "opened b"
    and "tx_Bucket ns (buckets b) = None \<or>
         (\<exists>bucket. tx_Bucket ns (buckets b) = Some bucket \<and> bucket_Get k bucket = None)"
  shows "Read b ns k = (None, None)"
  using assms by (auto simp: Read_def db_View_def)

theorem Read_absent_witness:
  "Read \<lparr>buckets = [(''credential'', [(''a'', ''1'')])], opened = True, disk_ok = True\<rparr>
     ''credential'' ''b'' = (None, None)
   \<and> Read \<lparr>buckets = [(''credential'', [(''a'', ''1'')])], opened = True, disk_ok = True\<rparr>
     ''schema'' ''a'' = (None, None)"
  using
    Read_absent [of "\<lparr>buckets = [(''credential'', [(''a'', ''1'')])], opened = True, disk_ok = True\<rparr>"
      "''credential''" "''b''"]
    Read_absent [of "\<lparr>buckets = [(''credential'', [(''a'', ''1'')])], opened = True, disk_ok = True\<rparr>"
      "''schema''" "''a''"]
  by (simp add: tx_Bucket_def bucket_Get_def)

section \<open>Delete of an absent namespace or key\<close>

text \<open>
  C4, as the code has it. On an open database whose commit succeeds, \<open>Delete(ns, k)\<close> of a
  key that the existing namespace \<open>ns\<close> does not hold returns no error and leaves the
  database as it was. When the namespace \<open>ns\<close> does not exist, \<open>Delete\<close> returns the error
  "namespace<ns> does not exist", and the database is as it was.
\<close>

theorem Delete_absent:
  "(opened b \<and> disk_ok b \<and> tx_Bucket ns (buckets b) = Some bucket \<and> bucket_Get k bucket = None
      \<longrightarrow> Delete b ns k = (Done None, b))
   \<and> (opened b \<and> tx_Bucket ns (buckets b) = None
      \<longrightarrow> Delete b ns k = (Done (Some (ErrorNew (''namespace<'' @ ns @ ''> does not exist''))), b))"
  by (auto simp: Delete_def db_Update_def tx_Commit_def tx_Rollback_def bucket_Delete_def
           tx_Bucket_def bucket_Get_def in_bucket_same tree_delete_absent)

theorem Delete_absent_witness:
  "Delete \<lparr>buckets = [(''credential'', [(''a'', ''1'')])], opened = True, disk_ok = True\<rparr>
     ''credential'' ''b''
     = (Done None, \<lparr>buckets = [(''credential'', [(''a'', ''1'')])], opened = True, disk_ok = True\<rparr>)
   \<and> Delete \<lparr>buckets = [(''credential'', [(''a'', ''1'')])], opened = True, disk_ok = True\<rparr>
     ''schema'' ''a''
     = (Done (Some (ErrorNew ''namespace<schema> does not exist'')),
        \<lparr>buckets = [(''credential'', [(''a'', ''1'')])], opened = True, disk_ok = True\<rparr>)"
  using
    Delete_absent [of "\<lparr>buckets = [(''credential'', [(''a'', ''1'')])], opened = True, disk_ok = True\<rparr>"
      "''credential''" "[(''a'', ''1'')]" "''b''"]
    Delete_absent [of "\<lparr>buckets = [(''credential'', [(''a'', ''1'')])], opened = True, disk_ok = True\<rparr>"
      "''schema''" "[]" "''a''"]
  by (simp add: tx_Bucket_def bucket_Get_def)

text \<open>
  As stated, C4 fails: on an open database without the namespace \<open>credential\<close>,
  \<open>Delete\<close> returns an error.
\<close>

theorem Delete_absent_namespace_counterexample:
  "tx_Bucket ''credential'' (buckets \<lparr>buckets = [], opened = True, disk_ok = True\<rparr>) = None
   \<and> fst (Delete \<lparr>buckets = [], opened = True, disk_ok = True\<rparr> ''credential'' ''k'')
       = Done (Some (ErrorNew ''namespace<credential> does not exist''))
   \<and> fst (Delete \<lparr>buckets = [], opened = True, disk_ok = True\<rparr> ''credential'' ''k'') \<noteq> Done None"
  by (simp add: Delete_def db_Update_def tx_Rollback_def tx_Bucket_def)

section \<open>Write, then Read\<close>

text \<open>
  C5. When \<open>Write(ns, k, v)\<close> returns no error, \<open>Read(ns, k)\<close> on the resulting database
  returns \<open>v\<close> and no error. A write to a namespace that does not exist succeeds on an
  open database whose commit succeeds, for a non-empty namespace name and a key and a
  value that bbolt accepts: the write creates the namespace.
\<close>

theorem Write_then_Read:
  "(Write b ns k v = (Done None, b') \<longrightarrow> Read b' ns k = (Some v, None))
   \<and> (opened b \<and> disk_ok b \<and> tx_Bucket ns (buckets b) = None \<and> ns \<noteq> [] \<and> k \<noteq> []
        \<and> length k \<le> MaxKeySize \<and> length v \<le> MaxValueSize
      \<longrightarrow> (\<exists>b''. Write b ns k v = (Done None, b'')))"
proof (intro conjI impI)
  assume w: "Write b ns k v = (Done None, b')"
  obtain r where u: "db_Update b () (writeFunc ns k v) = (r, b')" and r: "map_go fst r = Done None"
    using w by (auto simp: Write_def split: prod.splits)
  from r obtain c where "r = Done (None, c)" by (cases r) auto
  with u have "db_Update b () (writeFunc ns k v) = (Done (None, c), b')" by simp
  from db_Update_Done_None [OF this]
  obtain tx where o: "opened b" and f: "writeFunc ns k v (buckets b) = Done (None, c, tx)"
    and b': "b' = b\<lparr>buckets := tx\<rparr>" by blast
  have "lookup tx ns k = Some v" using writeFunc_lookup [OF f, of ns k] by simp
  moreover have "opened b'" using o b' by simp
  ultimately show "Read b' ns k = (Some v, None)" using b' by (simp add: Read_lookup)
next
  assume "opened b \<and> disk_ok b \<and> tx_Bucket ns (buckets b) = None \<and> ns \<noteq> [] \<and> k \<noteq> []
        \<and> length k \<le> MaxKeySize \<and> length v \<le> MaxValueSize"
  then show "\<exists>b''. Write b ns k v = (Done None, b'')"
    by (simp add: Write_def db_Update_def writeFunc_def tx_CreateBucketIfNotExists_def
          bucket_Put_def tx_Commit_def tx_Bucket_def)
qed

theorem Write_then_Read_witness:
  "Write \<lparr>buckets = [], opened = True, disk_ok = True\<rparr> ''credential'' ''k1'' ''v1''
     = (Done None, \<lparr>buckets = [(''credential'', [(''k1'', ''v1'')])], opened = True, disk_ok = True\<rparr>)
   \<and> Read \<lparr>buckets = [(''credential'', [(''k1'', ''v1'')])], opened = True, disk_ok = True\<rparr>
       ''credential'' ''k1'' = (Some ''v1'', None)
   \<and> tx_Bucket ''credential'' (buckets \<lparr>buckets = [], opened = True, disk_ok = True\<rparr>) = None
   \<and> (\<exists>b''. Write \<lparr>buckets = [], opened = True, disk_ok = True\<rparr> ''credential'' ''k1'' ''v1''
              = (Done None, b''))"
  using Write_then_Read [of "\<lparr>buckets = [], opened = True, disk_ok = True\<rparr>" "''credential''"
      "''k1''" "''v1''"
      "\<lparr>buckets = [(''credential'', [(''k1'', ''v1'')])], opened = True, disk_ok = True\<rparr>"]
  by (simp add: Write_def db_Update_def writeFunc_def tx_CreateBucketIfNotExists_def
        bucket_Put_def tx_Commit_def tx_Bucket_def MaxKeySize_def MaxValueSize_def)

section \<open>WriteMany\<close>

lemma WriteMany_loop_end:
  "\<not> i < length nss \<Longrightarrow> WriteMany_loop nss ks vs i tx = Done (None, (), tx)"
  by (simp add: WriteMany_loop.simps)

lemma WriteMany_loop_step:
  assumes "WriteMany_loop nss ks vs i tx = Done (None, u, tx')" and "i < length nss"
  shows "\<exists>tx2. writeFunc (nss ! i) (ks ! i) (vs ! i) tx = Done (None, (), tx2)
           \<and> i < length ks \<and> i < length vs
           \<and> WriteMany_loop nss ks vs (Suc i) tx2 = Done (None, u, tx')"
  using assms
  by (subst (asm) WriteMany_loop.simps)
     (auto simp: writeFunc_def split: prod.splits option.splits if_splits)

lemma WriteMany_loop_frame:
  "WriteMany_loop nss ks vs i tx = Done (None, u, tx') \<Longrightarrow>
   (\<forall>j. i \<le> j \<and> j < length nss \<longrightarrow> \<not> (nss ! j = ns \<and> ks ! j = k)) \<Longrightarrow>
   lookup tx' ns k = lookup tx ns k"
proof (induction "length nss - i" arbitrary: i tx)
  case 0
  then have "\<not> i < length nss" by simp
  with 0 show ?case by (simp add: WriteMany_loop_end)
next
  case (Suc d)
  then have i: "i < length nss" by simp
  from WriteMany_loop_step [OF Suc.prems(1) i]
  obtain tx2 where w: "writeFunc (nss ! i) (ks ! i) (vs ! i) tx = Done (None, (), tx2)"
    and r: "WriteMany_loop nss ks vs (Suc i) tx2 = Done (None, u, tx')" by blast
  have "lookup tx' ns k = lookup tx2 ns k"
    using Suc.hyps(1) [of "Suc i" tx2] Suc.hyps(2) r Suc.prems(2) by auto
  also have "\<dots> = lookup tx ns k"
    using writeFunc_lookup [OF w, of ns k] Suc.prems(2) i by auto
  finally show ?case .
qed

lemma WriteMany_loop_last:
  "WriteMany_loop nss ks vs i tx = Done (None, u, tx') \<Longrightarrow> i \<le> j \<Longrightarrow> j < length nss \<Longrightarrow>
   (\<forall>j'. j < j' \<and> j' < length nss \<longrightarrow> \<not> (nss ! j' = nss ! j \<and> ks ! j' = ks ! j)) \<Longrightarrow>
   lookup tx' (nss ! j) (ks ! j) = Some (vs ! j)"
proof (induction "length nss - i" arbitrary: i tx)
  case 0
  then show ?case by simp
next
  case (Suc d)
  then have i: "i < length nss" by simp
  from WriteMany_loop_step [OF Suc.prems(1) i]
  obtain tx2 where w: "writeFunc (nss ! i) (ks ! i) (vs ! i) tx = Done (None, (), tx2)"
    and r: "WriteMany_loop nss ks vs (Suc i) tx2 = Done (None, u, tx')" by blast
  show ?case
  proof (cases "j = i")
    case True
    have "lookup tx' (nss ! i) (ks ! i) = lookup tx2 (nss ! i) (ks ! i)"
      using WriteMany_loop_frame [OF r, of "nss ! i" "ks ! i"] Suc.prems(4) True by auto
    also have "\<dots> = Some (vs ! i)" using writeFunc_lookup [OF w, of "nss ! i" "ks ! i"] by simp
    finally show ?thesis using True by simp
  next
    case False
    then show ?thesis
      using Suc.hyps(1) [of "Suc i" tx2] Suc.hyps(2) r Suc.prems by auto
  qed
qed

lemma WriteMany_loop_no_panic:
  "length nss \<le> length ks \<Longrightarrow> length nss \<le> length vs \<Longrightarrow> WriteMany_loop nss ks vs i tx \<noteq> Panic p"
proof (induction "length nss - i" arbitrary: i tx)
  case 0
  then show ?case by (simp add: WriteMany_loop_end)
next
  case (Suc d)
  then have i: "i < length nss" by simp
  have "WriteMany_loop nss ks vs (Suc i) tx2 \<noteq> Panic p" for tx2
    using Suc.hyps(1) [of "Suc i" tx2] Suc.hyps(2) Suc.prems by auto
  then show ?case using i Suc.prems
    by (subst WriteMany_loop.simps) (auto split: prod.splits option.splits)
qed

text \<open>
  C2, as the code has it. For slices of equal length, \<open>WriteMany\<close> either returns nil,
  and then every pair \<open>(namespaces[i], keys[i])\<close> that no later index repeats reads as
  \<open>values[i]\<close> (a repeated pair reads as the value of its last occurrence); or it returns
  an error and the database is as it was. It does not panic.
\<close>

theorem WriteMany_atomic:
  assumes "length namespaces = length keys" and "length keys = length vals"
  shows "(\<exists>b'. WriteMany b namespaces keys vals = (Done None, b')
            \<and> (\<forall>i<length namespaces.
                  (\<forall>j. i < j \<and> j < length namespaces
                        \<longrightarrow> (namespaces ! j, keys ! j) \<noteq> (namespaces ! i, keys ! i))
                  \<longrightarrow> Read b' (namespaces ! i) (keys ! i) = (Some (vals ! i), None)))
       \<or> (\<exists>err. WriteMany b namespaces keys vals = (Done (Some err), b))"
proof -
  let ?fn = "WriteMany_loop namespaces keys vals 0"
  have g: "\<not> WriteMany_guard namespaces keys vals" using assms by (simp add: WriteMany_guard_def)
  obtain r b' where u: "db_Update b () ?fn = (r, b')" by (cases "db_Update b () ?fn")
  have np: "?fn (buckets b) \<noteq> Panic p" for p using assms by (simp add: WriteMany_loop_no_panic)
  have w: "WriteMany b namespaces keys vals = (map_go fst r, b')" using g u by (simp add: WriteMany_def)
  show ?thesis
  proof (cases "\<exists>c. r = Done (None, c)")
    case True
    then obtain c where r: "r = Done (None, c)" by blast
    from db_Update_Done_None [OF u [unfolded r]]
    obtain tx where o: "opened b" and f: "?fn (buckets b) = Done (None, c, tx)"
      and b': "b' = b\<lparr>buckets := tx\<rparr>" by blast
    have "Read b' (namespaces ! i) (keys ! i) = (Some (vals ! i), None)"
      if "i < length namespaces"
        and "\<forall>j. i < j \<and> j < length namespaces
                \<longrightarrow> (namespaces ! j, keys ! j) \<noteq> (namespaces ! i, keys ! i)" for i
      using WriteMany_loop_last [OF f, of i] that o b' by (simp add: Read_lookup)
    then show ?thesis using w r by auto
  next
    case False
    then have b: "b' = b" using db_Update_unchanged [OF u] by blast
    have "r \<noteq> Panic p" for p using u np [of p]
      by (auto simp: db_Update_def tx_Commit_def split: if_splits go.splits option.splits prod.splits)
    then obtain e c where "r = Done (e, c)" by (cases r) auto
    with False obtain err where "r = Done (Some err, c)" by (cases e) auto
    then show ?thesis using w b by auto
  qed
qed


theorem WriteMany_atomic_witness:
  "length [''credential'', ''schema''] = length [''k1'', ''k2'']
   \<and> length [''k1'', ''k2''] = length [''v1'', ''v2'']
   \<and> WriteMany \<lparr>buckets = [], opened = True, disk_ok = True\<rparr>
        [''credential'', ''schema''] [''k1'', ''k2''] [''v1'', ''v2'']
       = (Done None,
          \<lparr>buckets = [(''credential'', [(''k1'', ''v1'')]), (''schema'', [(''k2'', ''v2'')])],
           opened = True, disk_ok = True\<rparr>)
   \<and> ((\<exists>b'. WriteMany \<lparr>buckets = [], opened = True, disk_ok = True\<rparr>
               [''credential'', ''schema''] [''k1'', ''k2''] [''v1'', ''v2''] = (Done None, b')
            \<and> (\<forall>i<length [''credential'', ''schema''].
                  (\<forall>j. i < j \<and> j < length [''credential'', ''schema'']
                        \<longrightarrow> ([''credential'', ''schema''] ! j, [''k1'', ''k2''] ! j)
                              \<noteq> ([''credential'', ''schema''] ! i, [''k1'', ''k2''] ! i))
                  \<longrightarrow> Read b' ([''credential'', ''schema''] ! i) ([''k1'', ''k2''] ! i)
                      = (Some ([''v1'', ''v2''] ! i), None)))
       \<or> (\<exists>err. WriteMany \<lparr>buckets = [], opened = True, disk_ok = True\<rparr>
                 [''credential'', ''schema''] [''k1'', ''k2''] [''v1'', ''v2'']
               = (Done (Some err), \<lparr>buckets = [], opened = True, disk_ok = True\<rparr>)))"
proof -
  have l: "length [''credential'', ''schema''] = length [''k1'', ''k2'']"
    "length [''k1'', ''k2''] = length [''v1'', ''v2'']" by simp_all
  have e: "WriteMany \<lparr>buckets = [], opened = True, disk_ok = True\<rparr>
        [''credential'', ''schema''] [''k1'', ''k2''] [''v1'', ''v2'']
       = (Done None,
          \<lparr>buckets = [(''credential'', [(''k1'', ''v1'')]), (''schema'', [(''k2'', ''v2'')])],
           opened = True, disk_ok = True\<rparr>)"
    by (simp add: WriteMany_def WriteMany_guard_def db_Update_def WriteMany_loop.simps
          tx_CreateBucketIfNotExists_def bucket_Put_def tx_Commit_def MaxKeySize_def
          MaxValueSize_def)
  show ?thesis
    using l e WriteMany_atomic [OF l, of "\<lparr>buckets = [], opened = True, disk_ok = True\<rparr>"]
    by blast
qed

text \<open>
  As stated, C2 fails when the batch names a pair twice: index 0 then reads as the value
  of index 1.
\<close>

theorem WriteMany_duplicate_counterexample:
  "length [''a'', ''a''] = length [''k'', ''k''] \<and> length [''k'', ''k''] = length [''v1'', ''v2'']
   \<and> WriteMany \<lparr>buckets = [], opened = True, disk_ok = True\<rparr> [''a'', ''a''] [''k'', ''k'']
        [''v1'', ''v2'']
       = (Done None, \<lparr>buckets = [(''a'', [(''k'', ''v2'')])], opened = True, disk_ok = True\<rparr>)
   \<and> Read \<lparr>buckets = [(''a'', [(''k'', ''v2'')])], opened = True, disk_ok = True\<rparr>
        ([''a'', ''a''] ! 0) ([''k'', ''k''] ! 0) = (Some ''v2'', None)
   \<and> Read \<lparr>buckets = [(''a'', [(''k'', ''v2'')])], opened = True, disk_ok = True\<rparr>
        ([''a'', ''a''] ! 0) ([''k'', ''k''] ! 0) \<noteq> (Some ([''v1'', ''v2''] ! 0), None)"
  by (simp add: WriteMany_def WriteMany_guard_def db_Update_def WriteMany_loop.simps
        tx_CreateBucketIfNotExists_def bucket_Put_def tx_Commit_def MaxKeySize_def
        MaxValueSize_def Read_def db_View_def tx_Bucket_def bucket_Get_def)

lemma WriteMany_loop_panics:
  "length nss = length ks \<Longrightarrow> length vs < length nss \<Longrightarrow> (\<forall>i<length nss. nss ! i \<noteq> []) \<Longrightarrow>
   (\<forall>i<length vs. ks ! i \<noteq> [] \<and> length (ks ! i) \<le> MaxKeySize \<and> length (vs ! i) \<le> MaxValueSize) \<Longrightarrow>
   i \<le> length vs \<Longrightarrow>
   WriteMany_loop nss ks vs i tx = Panic (IndexOutOfRange (length vs) (length vs))"
proof (induction "length vs - i" arbitrary: i tx)
  case 0
  then have "i = length vs" by simp
  with 0 show ?case
    by (subst WriteMany_loop.simps)
       (auto simp: tx_CreateBucketIfNotExists_def split: prod.splits option.splits)
next
  case (Suc d)
  then have i: "i < length vs" by simp
  have "WriteMany_loop nss ks vs (Suc i) tx2 = Panic (IndexOutOfRange (length vs) (length vs))" for tx2
    using Suc.hyps(1) [of "Suc i" tx2] Suc.hyps(2) Suc.prems by auto
  then show ?case using i Suc.prems
    by (subst WriteMany_loop.simps)
       (auto simp: tx_CreateBucketIfNotExists_def bucket_Put_def split: prod.splits option.splits)
qed

text \<open>
  C9. The length check of \<open>WriteMany\<close> rejects a call only when the number of
  namespaces differs from the number of keys and also from the number of values. With as
  many keys as namespaces and fewer values, the check lets the call through; when the
  names, keys and values before the missing value are ones that bbolt accepts, the loop
  reaches \<open>values[i]\<close> with \<open>i = len(values)\<close>, which is out of range: the call panics
  and the database is as it was.
\<close>

theorem WriteMany_guard_conjunction:
  "(WriteMany_guard namespaces keys vals
      \<longleftrightarrow> length namespaces \<noteq> length keys \<and> length namespaces \<noteq> length vals)
   \<and> (length namespaces = length keys \<and> length vals < length namespaces \<and> opened b
       \<and> (\<forall>i<length namespaces. namespaces ! i \<noteq> [])
       \<and> (\<forall>i<length vals. keys ! i \<noteq> [] \<and> length (keys ! i) \<le> MaxKeySize
                            \<and> length (vals ! i) \<le> MaxValueSize)
      \<longrightarrow> \<not> WriteMany_guard namespaces keys vals
          \<and> WriteMany b namespaces keys vals
              = (Panic (IndexOutOfRange (length vals) (length vals)), b))"
  by (auto simp: WriteMany_guard_def WriteMany_def db_Update_def WriteMany_loop_panics)

theorem WriteMany_guard_conjunction_witness:
  "length [''credential'', ''schema''] = length [''k1'', ''k2'']
   \<and> length [''v1''] < length [''credential'', ''schema'']
   \<and> \<not> WriteMany_guard [''credential'', ''schema''] [''k1'', ''k2''] [''v1'']
   \<and> WriteMany \<lparr>buckets = [], opened = True, disk_ok = True\<rparr>
        [''credential'', ''schema''] [''k1'', ''k2''] [''v1'']
       = (Panic (IndexOutOfRange 1 1), \<lparr>buckets = [], opened = True, disk_ok = True\<rparr>)"
  using WriteMany_guard_conjunction [of "[''credential'', ''schema'']" "[''k1'', ''k2'']" "[''v1'']"
      "\<lparr>buckets = [], opened = True, disk_ok = True\<rparr>"]
  by (simp add: MaxKeySize_def MaxValueSize_def less_Suc_eq_0_disj)

section \<open>ReadPrefix\<close>

lemma prefix_le: "prefix p k \<Longrightarrow> p \<le> (k :: string)"
proof (induction p arbitrary: k)
  case Nil
  then show ?case by simp
next
  case (Cons a p)
  then obtain k' where "k = a # k'" "prefix p k'" by (cases k) auto
  with Cons.IH [of k'] show ?case by simp
qed

lemma no_prefix_above:
  "p \<le> k \<Longrightarrow> \<not> prefix p k \<Longrightarrow> k < k' \<Longrightarrow> \<not> prefix p (k' :: string)"
proof (induction p arbitrary: k k')
  case Nil
  then show ?case by simp
next
  case (Cons a p)
  from Cons.prems(1) obtain c r where k: "k = c # r" by (cases k) auto
  from Cons.prems(3) k obtain c' r' where k': "k' = c' # r'" by (cases k') auto
  show ?case
  proof
    assume "prefix (a # p) k'"
    with k' have c': "c' = a" and pr: "prefix p r'" by auto
    from Cons.prems(1) k have 1: "a < c \<or> (a = c \<and> p \<le> r)" by simp
    from Cons.prems(3) k k' c' have 2: "c < a \<or> (c = a \<and> r < r')" by simp
    from 1 2 have ca: "c = a" and pr1: "p \<le> r" and rr: "r < r'" by auto
    from Cons.prems(2) k ca have "\<not> prefix p r" by simp
    from Cons.IH [OF pr1 this rr] pr show False by simp
  qed
qed

lemma ReadPrefix_loop_sorted:
  "sorted_wrt (<) (map fst u) \<Longrightarrow> (\<forall>x\<in>set u. pre \<le> fst x) \<Longrightarrow>
   ReadPrefix_loop pre u res = (\<lambda>k. if prefix pre k \<and> k \<in> fst ` set u then map_of u k else res k)"
proof (induction u arbitrary: res)
  case Nil
  then show ?case by simp
next
  case (Cons e u)
  obtain k1 v1 where e: "e = (k1, v1)" by (cases e)
  from Cons.prems e have s: "sorted_wrt (<) (map fst u)" and g: "\<forall>x\<in>set u. pre \<le> fst x"
    and above: "\<forall>x\<in>set u. k1 < fst x" and pk: "pre \<le> k1" by auto
  show ?case
  proof (cases "prefix pre k1")
    case True
    have notin: "k1 \<notin> fst ` set u" using above by auto
    have ih: "ReadPrefix_loop pre u (res(k1 \<mapsto> v1))
                = (\<lambda>k. if prefix pre k \<and> k \<in> fst ` set u then map_of u k else (res(k1 \<mapsto> v1)) k)"
      by (rule Cons.IH [OF s g])
    have "ReadPrefix_loop pre (e # u) res = ReadPrefix_loop pre u (res(k1 \<mapsto> v1))"
      using True e by simp
    also have "\<dots> = (\<lambda>k. if prefix pre k \<and> k \<in> fst ` set (e # u) then map_of (e # u) k else res k)"
      unfolding ih using True e notin by (intro ext) auto
    finally show ?thesis .
  next
    case False
    have "\<not> prefix pre k" if "k \<in> fst ` set u" for k
      using no_prefix_above [OF pk False, of k] above that by auto
    then have n: "\<not> (prefix pre k \<and> k \<in> fst ` set (e # u))" for k
      using False e by auto
    have "ReadPrefix_loop pre (e # u) res = res" using False e by simp
    also have "\<dots> = (\<lambda>k. if prefix pre k \<and> k \<in> fst ` set (e # u) then map_of (e # u) k else res k)"
      by (rule ext) (simp only: n if_False)
    finally show ?thesis .
  qed
qed

lemma Seek_above:
  "sorted_wrt (<) (map fst t) \<Longrightarrow> \<forall>x\<in>set (cursor_Seek pre t). pre \<le> fst x"
  unfolding cursor_Seek_def
proof (induction t)
  case Nil
  then show ?case by simp
next
  case (Cons e t)
  then show ?case by (cases e) (auto simp: not_less intro: order_trans less_imp_le)
qed

lemma Seek_sorted:
  "sorted_wrt (<) (map fst t) \<Longrightarrow> sorted_wrt (<) (map fst (cursor_Seek pre t))"
  unfolding cursor_Seek_def by (induction t) auto

lemma Seek_map_of:
  "prefix pre k \<Longrightarrow> map_of (cursor_Seek pre t) k = map_of t k"
  unfolding cursor_Seek_def
proof (induction t)
  case Nil
  then show ?case by simp
next
  case (Cons e t)
  then show ?case using prefix_le [of pre k] by (cases e) auto
qed

lemma map_of_None_iff: "map_of t k = None \<longleftrightarrow> k \<notin> fst ` set t"
  by (simp add: map_of_eq_None_iff)

text \<open>
  C6. On an open database, \<open>ReadPrefix(ns, p)\<close> returns no error and the map that holds
  exactly the keys of the namespace \<open>ns\<close> that start with \<open>p\<close>, each with its stored value;
  when the namespace does not exist the map is empty. The keys of a bucket are in
  ascending order, which is what lets the scan stop at the first key without the prefix.
\<close>

theorem ReadPrefix_exact:
  "(opened b \<and> tx_Bucket ns (buckets b) = Some bucket \<and> tree_ok bucket
      \<longrightarrow> ReadPrefix b ns p = (\<lambda>k. if prefix p k then bucket_Get k bucket else None, None))
   \<and> (opened b \<and> tx_Bucket ns (buckets b) = None \<longrightarrow> ReadPrefix b ns p = (Map.empty, None))"
proof (intro conjI impI)
  assume a: "opened b \<and> tx_Bucket ns (buckets b) = Some bucket \<and> tree_ok bucket"
  then have s: "sorted_wrt (<) (map fst bucket)" by (simp add: tree_ok_def)
  have "ReadPrefix_loop p (cursor_Seek p bucket) Map.empty
          = (\<lambda>k. if prefix p k then bucket_Get k bucket else None)"
  proof
    fix k
    show "ReadPrefix_loop p (cursor_Seek p bucket) Map.empty k
            = (if prefix p k then bucket_Get k bucket else None)"
    proof (cases "prefix p k")
      case True
      then show ?thesis
        using Seek_map_of [OF True, of bucket] map_of_None_iff [of "cursor_Seek p bucket" k]
        by (auto simp: ReadPrefix_loop_sorted [OF Seek_sorted [OF s] Seek_above [OF s]] bucket_Get_def)
    next
      case False
      then show ?thesis
        by (simp add: ReadPrefix_loop_sorted [OF Seek_sorted [OF s] Seek_above [OF s]])
    qed
  qed
  with a show "ReadPrefix b ns p = (\<lambda>k. if prefix p k then bucket_Get k bucket else None, None)"
    by (simp add: ReadPrefix_def db_View_def)
next
  assume "opened b \<and> tx_Bucket ns (buckets b) = None"
  then show "ReadPrefix b ns p = (Map.empty, None)"
    by (simp add: ReadPrefix_def db_View_def)
qed

theorem ReadPrefix_exact_witness:
  "tree_ok [(''a1-is:x'', ''1''), (''a2-is:y'', ''2''), (''b1-is:x'', ''3'')]
   \<and> ReadPrefix \<lparr>buckets = [(''credential'', [(''a1-is:x'', ''1''), (''a2-is:y'', ''2''), (''b1-is:x'', ''3'')])],
                 opened = True, disk_ok = True\<rparr> ''credential'' ''a''
       = (\<lambda>k. if prefix ''a'' k
               then bucket_Get k [(''a1-is:x'', ''1''), (''a2-is:y'', ''2''), (''b1-is:x'', ''3'')]
               else None, None)
   \<and> ReadPrefix \<lparr>buckets = [(''credential'', [(''a1-is:x'', ''1''), (''a2-is:y'', ''2''), (''b1-is:x'', ''3'')])],
                 opened = True, disk_ok = True\<rparr> ''schema'' ''a''
       = (Map.empty, None)"
  using
    ReadPrefix_exact [of "\<lparr>buckets = [(''credential'', [(''a1-is:x'', ''1''), (''a2-is:y'', ''2''), (''b1-is:x'', ''3'')])],
                 opened = True, disk_ok = True\<rparr>" "''credential''"
         "[(''a1-is:x'', ''1''), (''a2-is:y'', ''2''), (''b1-is:x'', ''3'')]" "''a''"]
    ReadPrefix_exact [of "\<lparr>buckets = [(''credential'', [(''a1-is:x'', ''1''), (''a2-is:y'', ''2''), (''b1-is:x'', ''3'')])],
                 opened = True, disk_ok = True\<rparr>" "''schema''" "[]" "''a''"]
  by (simp add: tx_Bucket_def tree_ok_def)

section \<open>Execute\<close>

lemma writeFunc_failed_lookup:
  "writeFunc namespace key val tx = Done (Some e, u, tx') \<Longrightarrow> lookup tx' ns k = lookup tx ns k"
  unfolding writeFunc_def bucket_Put_def
  by (auto split: prod.splits option.splits if_splits simp: lookup_CreateBucketIfNotExists)

lemma writeFunc_no_panic: "writeFunc namespace key val tx \<noteq> Panic p"
  unfolding writeFunc_def by (auto split: prod.splits option.splits)

lemma boltTx_Write_writeFunc:
  "boltTx_Write namespace key val tx = (err, tx') \<Longrightarrow>
   writeFunc namespace key val tx = Done (err, (), tx')"
  unfolding boltTx_Write_def using writeFunc_no_panic [of namespace key val tx]
  by (auto split: go.splits)

lemma boltTx_Write_lookup:
  "boltTx_Write namespace key val tx = (err, tx') \<Longrightarrow>
   lookup tx' ns k = (if err = None \<and> ns = namespace \<and> k = key then Some val else lookup tx ns k)"
  using writeFunc_lookup [of namespace key val tx _ tx' ns k]
    writeFunc_failed_lookup [of namespace key val tx _ _ tx' ns k]
  by (cases err) (auto dest!: boltTx_Write_writeFunc)

lemma last_written_lookup:
  "call fn tx = (r, tx') \<Longrightarrow> (acc \<noteq> None \<longrightarrow> lookup tx ns k = acc) \<Longrightarrow>
   last_written fn ns k acc tx = Some v \<Longrightarrow> lookup tx' ns k = Some v"
proof (induction fn arbitrary: tx acc)
  case (Return result err)
  then show ?case by auto
next
  case (TxWrite namespace key val cont)
  obtain err tx1 where w: "boltTx_Write namespace key val tx = (err, tx1)"
    by (cases "boltTx_Write namespace key val tx")
  let ?acc = "if err = None \<and> namespace = ns \<and> key = k then Some val else acc"
  have c: "call (cont err) tx1 = (r, tx')" using TxWrite.prems(1) w by simp
  have l: "last_written (cont err) ns k ?acc tx1 = Some v" using TxWrite.prems(3) w by simp
  have i: "?acc \<noteq> None \<longrightarrow> lookup tx1 ns k = ?acc"
    using boltTx_Write_lookup [OF w, of ns k] TxWrite.prems(2) by auto
  have "cont err \<in> range cont" by simp
  from TxWrite.IH [OF this c i l] show ?case .
next
  case (Panics p)
  then show ?case by auto
qed

text \<open>
  C1. When the business-logic function returns an error, \<open>Execute\<close> returns an error and
  the database is as it was. When the function returns no error on an open database
  whose commit succeeds, \<open>Execute\<close> returns the function's result and the database holds
  the root that the function left in the transaction; a reader finds there the value of
  the function's last successful write to each pair. When the function panics the
  transaction is rolled back, and so it is when the commit fails.
\<close>

theorem Execute_transactional:
  "(call fn (buckets b) = (Done (result, Some err), tx)
      \<longrightarrow> (\<exists>e. Execute b fn watchKeys = (Done (None, Some e), b)))
   \<and> (opened b \<and> disk_ok b \<and> call fn (buckets b) = (Done (result, None), tx)
      \<longrightarrow> Execute b fn watchKeys = (Done (Some result, None), b\<lparr>buckets := tx\<rparr>)
          \<and> (\<forall>ns k v. last_written fn ns k None (buckets b) = Some v
                \<longrightarrow> Read (b\<lparr>buckets := tx\<rparr>) ns k = (Some v, None)))
   \<and> (opened b \<and> fst (call fn (buckets b)) = Panic p \<longrightarrow> Execute b fn watchKeys = (Panic p, b))
   \<and> (\<not> disk_ok b \<and> call fn (buckets b) = (Done (result, None), tx)
      \<longrightarrow> (\<exists>e. Execute b fn watchKeys = (Done (None, Some e), b)))"
proof -
  have 1: "\<exists>e. Execute b fn watchKeys = (Done (None, Some e), b)"
    if "call fn (buckets b) = (Done (result, Some err), tx)"
    using that by (simp add: Execute_def tx_Rollback_def)
  have 2: "Execute b fn watchKeys = (Done (Some result, None), b\<lparr>buckets := tx\<rparr>)"
    if "opened b" and "disk_ok b" and "call fn (buckets b) = (Done (result, None), tx)"
    using that by (simp add: Execute_def tx_Commit_def)
  have 3: "Read (b\<lparr>buckets := tx\<rparr>) ns k = (Some v, None)"
    if "opened b" and c: "call fn (buckets b) = (Done (result, None), tx)"
      and l: "last_written fn ns k None (buckets b) = Some v" for ns k v
    using last_written_lookup [OF c _ l] that(1) by (simp add: Read_lookup)
  have 4: "Execute b fn watchKeys = (Panic p, b)"
    if "opened b" and "fst (call fn (buckets b)) = Panic p"
    using that by (cases "call fn (buckets b)") (simp add: Execute_def tx_Rollback_def)
  have 5: "\<exists>e. Execute b fn watchKeys = (Done (None, Some e), b)"
    if "\<not> disk_ok b" and "call fn (buckets b) = (Done (result, None), tx)"
    using that by (simp add: Execute_def tx_Commit_def)
  show ?thesis using 1 2 3 4 5 by blast
qed

theorem Execute_transactional_witness:
  "call (TxWrite ''credential'' ''k1'' ''v1'' (\<lambda>e. Return (0::nat) (Some (ErrorNew ''stop''))))
      (buckets \<lparr>buckets = [], opened = True, disk_ok = True\<rparr>)
     = (Done (0, Some (ErrorNew ''stop'')), [(''credential'', [(''k1'', ''v1'')])])
   \<and> (\<exists>e. Execute \<lparr>buckets = [], opened = True, disk_ok = True\<rparr>
            (TxWrite ''credential'' ''k1'' ''v1'' (\<lambda>e. Return (0::nat) (Some (ErrorNew ''stop''))))
            ([] :: unit list)
          = (Done (None, Some e), \<lparr>buckets = [], opened = True, disk_ok = True\<rparr>))
   \<and> call (TxWrite ''credential'' ''k1'' ''v1'' (\<lambda>e. Return (1::nat) e))
      (buckets \<lparr>buckets = [], opened = True, disk_ok = True\<rparr>)
     = (Done (1, None), [(''credential'', [(''k1'', ''v1'')])])
   \<and> Execute \<lparr>buckets = [], opened = True, disk_ok = True\<rparr>
        (TxWrite ''credential'' ''k1'' ''v1'' (\<lambda>e. Return (1::nat) e)) ([] :: unit list)
       = (Done (Some 1, None),
          \<lparr>buckets = [(''credential'', [(''k1'', ''v1'')])], opened = True, disk_ok = True\<rparr>)
   \<and> last_written (TxWrite ''credential'' ''k1'' ''v1'' (\<lambda>e. Return (1::nat) e))
        ''credential'' ''k1'' None (buckets \<lparr>buckets = [], opened = True, disk_ok = True\<rparr>)
       = Some ''v1''
   \<and> Read \<lparr>buckets = [(''credential'', [(''k1'', ''v1'')])], opened = True, disk_ok = True\<rparr>
        ''credential'' ''k1'' = (Some ''v1'', None)
   \<and> Execute \<lparr>buckets = [], opened = True, disk_ok = True\<rparr>
        (TxWrite ''credential'' ''k1'' ''v1'' (\<lambda>e. Panics (PanicValue ''stop'') :: nat BusinessLogicFunc)) ([] :: unit list)
       = (Panic (PanicValue ''stop''), \<lparr>buckets = [], opened = True, disk_ok = True\<rparr>)
   \<and> (\<exists>e. Execute \<lparr>buckets = [], opened = True, disk_ok = False\<rparr>
            (TxWrite ''credential'' ''k1'' ''v1'' (\<lambda>e. Return (1::nat) e)) ([] :: unit list)
          = (Done (None, Some e), \<lparr>buckets = [], opened = True, disk_ok = False\<rparr>))"
proof -
  have c0: "call (TxWrite ''credential'' ''k1'' ''v1'' (\<lambda>e. Return (0::nat) (Some (ErrorNew ''stop''))))
      (buckets \<lparr>buckets = [], opened = True, disk_ok = True\<rparr>)
     = (Done (0, Some (ErrorNew ''stop'')), [(''credential'', [(''k1'', ''v1'')])])"
    by (simp add: boltTx_Write_def writeFunc_def tx_CreateBucketIfNotExists_def bucket_Put_def
          MaxKeySize_def MaxValueSize_def)
  have c1: "call (TxWrite ''credential'' ''k1'' ''v1'' (\<lambda>e. Return (1::nat) e)) (buckets b)
     = (Done (1, None), [(''credential'', [(''k1'', ''v1'')])])" if "buckets b = []" for b :: BoltDB
    using that
    by (simp add: boltTx_Write_def writeFunc_def tx_CreateBucketIfNotExists_def bucket_Put_def
          MaxKeySize_def MaxValueSize_def)
  have c2: "fst (call (TxWrite ''credential'' ''k1'' ''v1'' (\<lambda>e. Panics (PanicValue ''stop'') :: nat BusinessLogicFunc))
      (buckets \<lparr>buckets = [], opened = True, disk_ok = True\<rparr>)) = Panic (PanicValue ''stop'')"
    by (simp add: boltTx_Write_def writeFunc_def tx_CreateBucketIfNotExists_def bucket_Put_def
          MaxKeySize_def MaxValueSize_def)
  have l: "last_written (TxWrite ''credential'' ''k1'' ''v1'' (\<lambda>e. Return (1::nat) e))
        ''credential'' ''k1'' None (buckets \<lparr>buckets = [], opened = True, disk_ok = True\<rparr>)
       = Some ''v1''"
    by (simp add: boltTx_Write_def writeFunc_def tx_CreateBucketIfNotExists_def bucket_Put_def
          MaxKeySize_def MaxValueSize_def)
  show ?thesis
    using c0 c1 [of "\<lparr>buckets = [], opened = True, disk_ok = True\<rparr>"]
      c1 [of "\<lparr>buckets = [], opened = True, disk_ok = False\<rparr>"] c2 l
      Execute_transactional [of "TxWrite ''credential'' ''k1'' ''v1'' (\<lambda>e. Return (0::nat) (Some (ErrorNew ''stop'')))"
        "\<lparr>buckets = [], opened = True, disk_ok = True\<rparr>" 0 "ErrorNew ''stop''"
        "[(''credential'', [(''k1'', ''v1'')])]" "[] :: unit list"]
      Execute_transactional [of "TxWrite ''credential'' ''k1'' ''v1'' (\<lambda>e. Return (1::nat) e)"
        "\<lparr>buckets = [], opened = True, disk_ok = True\<rparr>" 1 ErrDiskIO
        "[(''credential'', [(''k1'', ''v1'')])]" "[] :: unit list"]
      Execute_transactional [of "TxWrite ''credential'' ''k1'' ''v1'' (\<lambda>e. Panics (PanicValue ''stop'') :: nat BusinessLogicFunc)"
        "\<lparr>buckets = [], opened = True, disk_ok = True\<rparr>" 1 ErrDiskIO
        "[]" "[] :: unit list" "PanicValue ''stop''"]
      Execute_transactional [of "TxWrite ''credential'' ''k1'' ''v1'' (\<lambda>e. Return (1::nat) e)"
        "\<lparr>buckets = [], opened = True, disk_ok = False\<rparr>" 1 ErrDiskIO
        "[(''credential'', [(''k1'', ''v1'')])]" "[] :: unit list"]
    by simp
qed

section \<open>Update and UpdateValueAndOperation\<close>

lemma updateTx_absent:
  "tx_Bucket ns tx = None \<or> (\<exists>bucket. tx_Bucket ns tx = Some bucket \<and> bucket_Get k bucket = None) \<Longrightarrow>
   \<exists>err. updateTx (tx, nils) ns k updater = Done (None, Some err, (tx, nils))"
  by (auto simp: updateTx_def Get_in_tx_def)



lemma UpdateValueAndOperation_closure:
  "UpdateValueAndOperation b ns k updater opNs opKey opUpdater =
     (case db_Update b (None, None)
             (\<lambda>tx. case updateTx (tx, []) ns k updater of
                     Panic p \<Rightarrow> Panic p
                   | Done (d, Some err, tx') \<Rightarrow> Done (Some err, (None, None), fst tx')
                   | Done (d, None, tx') \<Rightarrow>
                       (case updateTx tx' opNs opKey (opUpdater d) of
                          Panic p \<Rightarrow> Panic p
                        | Done (d2, Some err, tx'') \<Rightarrow> Done (Some err, (d, None), fst tx'')
                        | Done (d2, None, tx'') \<Rightarrow> Done (None, (d, d2), fst tx'')))
      of (r, b') \<Rightarrow> (map_go (\<lambda>(err, first, op). (first, op, err)) r, b'))"
  unfolding UpdateValueAndOperation_def updateTxFn_def in_write_tx_def
  by (rule arg_cong [where f = "\<lambda>f. case db_Update b (None, None) f of (r, b') \<Rightarrow> (map_go (\<lambda>(err, first, op). (first, op, err)) r, b')"])
     (auto intro!: ext split: go.splits option.splits prod.splits)



lemmas example_eval =
  example_db_def example_updater_def example_nil_updater_def example_opUpdater_def
  UpdateValueAndOperation_def updateTxFn_def updateTx_def in_write_tx_def Get_in_tx_def
  Put_in_tx_def db_Update_def tx_Commit_def tx_Rollback_def tx_Bucket_def bucket_Get_def
  bucket_Put_def MaxKeySize_def MaxValueSize_def nil_to_empty_def lookup_def Read_def db_View_def



text \<open>
  An updater that returns nil and no error: with the operation elsewhere, the call
  returns a nil first result and a reader finds the empty value at \<open>(ns, key)\<close>.
\<close>

lemma UpdateValueAndOperation_nil_result:
  "UpdateValueAndOperation example_db ''manifest'' ''m1'' example_nil_updater ''operation'' ''op1''
       example_opUpdater
     = (Done (None, Some ''done:'', None),
        example_db\<lparr>buckets := [(''manifest'', [(''m1'', [])]),
                                (''operation'', [(''op1'', ''done:'')])]\<rparr>)"
  by (simp add: example_eval)

text \<open>
  C10. \<open>Update(ns, k, values)\<close> and \<open>UpdateValueAndOperation\<close> with target \<open>(ns, k)\<close>
  return an error and leave the database as it was whenever the namespace \<open>ns\<close> does not
  exist or holds no key \<open>k\<close>: nothing is created.
\<close>

theorem Update_requires_existing:
  assumes "tx_Bucket ns (buckets b) = None \<or>
           (\<exists>bucket. tx_Bucket ns (buckets b) = Some bucket \<and> bucket_Get k bucket = None)"
  shows "(\<exists>err. Update json b ns k vals = (Done (None, Some err), b))
         \<and> (\<exists>err. UpdateValueAndOperation b ns k updater opNs opKey opUpdater
                    = (Done (None, None, Some err), b))"
proof -
  have u: "\<exists>err. updateTx (buckets b, []) ns k u = Done (None, Some err, (buckets b, []))" for u
    using updateTx_absent [OF assms] .
  have "\<exists>err. Update json b ns k vals = (Done (None, Some err), b)"
    using u [of "NewUpdater json vals"]
    by (auto simp: Update_def db_Update_def updateTxFn_def in_write_tx_def tx_Rollback_def)
  moreover have "\<exists>err. UpdateValueAndOperation b ns k updater opNs opKey opUpdater
                    = (Done (None, None, Some err), b)"
    using u [of updater]
    by (auto simp: UpdateValueAndOperation_def db_Update_def updateTxFn_def in_write_tx_def
          tx_Rollback_def)
  ultimately show ?thesis by blast
qed

theorem Update_requires_existing_witness:
  "tx_Bucket ''schema'' (buckets example_db) = None
   \<and> Update example_json example_db ''schema'' ''s1'' [(''name'', 1)]
       = (Done (None, Some (ErrorNew ''namespace<schema> does not exist'')), example_db)
   \<and> UpdateValueAndOperation example_db ''schema'' ''s1'' example_updater ''operation'' ''op1''
        example_opUpdater
       = (Done (None, None, Some (ErrorNew ''namespace<schema> does not exist'')), example_db)
   \<and> tx_Bucket ''manifest'' (buckets example_db) = Some [(''m1'', ''a'')]
   \<and> bucket_Get ''m2'' [(''m1'', ''a'')] = None
   \<and> Update example_json example_db ''manifest'' ''m2'' [(''name'', 1)]
       = (Done (None, Some (ErrorNew ''key not found m2'')), example_db)
   \<and> UpdateValueAndOperation example_db ''manifest'' ''m2'' example_updater ''operation'' ''op1''
        example_opUpdater
       = (Done (None, None, Some (ErrorNew ''key not found m2'')), example_db)"
  using
    Update_requires_existing [of "''schema''" example_db "''s1''" example_json "[(''name'', 1)]"
      example_updater "''operation''" "''op1''" example_opUpdater]
    Update_requires_existing [of "''manifest''" example_db "''m2''" example_json "[(''name'', 1)]"
      example_updater "''operation''" "''op1''" example_opUpdater]
  by (simp add: example_eval Update_def NewUpdater_def)

section \<open>Revocation indices\<close>






lemma indices_of_append: "indices_of (xs @ ys) = indices_of xs @ indices_of ys"
  by (simp add: indices_of_def)















section \<open>The order of keys is kept\<close>

text \<open>
  The empty database has its keys in order, and every operation of the storage layer
  keeps them so; the buckets of every database that these operations produce are
  therefore in ascending key order, which is what the prefix scan relies on.
\<close>

lemma tree_put_above:
  "k' < k \<Longrightarrow> \<forall>x\<in>set t. k' < fst x \<Longrightarrow> \<forall>x\<in>set (tree_put k v t). k' < fst x"
  by (induction t) (fastforce split: if_splits)+

lemma tree_ok_put: "tree_ok t \<Longrightarrow> tree_ok (tree_put k v t)"
  unfolding tree_ok_def
proof (induction t)
  case Nil
  then show ?case by simp
next
  case (Cons e t)
  obtain k' v' where e: "e = (k', v')" by (cases e)
  have "\<forall>x\<in>set (tree_put k v t). k' < fst x" if "k' < k"
    using Cons.prems e that by (intro tree_put_above) auto
  with Cons e show ?case by (auto simp: not_less)
qed

lemma tree_delete_above:
  "\<forall>x\<in>set t. k' < fst x \<Longrightarrow> \<forall>x\<in>set (tree_delete k t). k' < fst x"
  by (induction t) (fastforce split: if_splits)+

lemma tree_ok_delete: "tree_ok t \<Longrightarrow> tree_ok (tree_delete k t)"
  unfolding tree_ok_def
proof (induction t)
  case Nil
  then show ?case by simp
next
  case (Cons e t)
  obtain k' v' where e: "e = (k', v')" by (cases e)
  have "\<forall>x\<in>set (tree_delete k t). k' < fst x"
    using Cons.prems e by (intro tree_delete_above) auto
  with Cons e show ?case by auto
qed

lemma list_all_tree_put: "Q (k, v) \<Longrightarrow> list_all Q t \<Longrightarrow> list_all Q (tree_put k v t)"
  by (induction t) auto

lemma in_bucket_keys: "map fst (in_bucket name f tx) = map fst tx"
  by (induction tx) auto

lemma store_ok_in_bucket:
  "(\<And>bk. tree_ok bk \<Longrightarrow> tree_ok (f bk)) \<Longrightarrow> store_ok tx \<Longrightarrow> store_ok (in_bucket name f tx)"
  unfolding store_ok_def
proof (intro conjI)
  assume "tree_ok tx \<and> list_all (\<lambda>(ns, b). tree_ok b) tx"
  then show "tree_ok (in_bucket name f tx)" by (simp add: tree_ok_def in_bucket_keys)
next
  assume f: "\<And>bk. tree_ok bk \<Longrightarrow> tree_ok (f bk)"
    and "tree_ok tx \<and> list_all (\<lambda>(ns, b). tree_ok b) tx"
  then have "list_all (\<lambda>(ns, b). tree_ok b) tx" by simp
  then show "list_all (\<lambda>(ns, b). tree_ok b) (in_bucket name f tx)"
    using f by (induction tx) auto
qed

lemma store_ok_empty: "store_ok []"
  by (simp add: store_ok_def tree_ok_def)

lemma store_ok_bucket: "store_ok tx \<Longrightarrow> tx_Bucket ns tx = Some bucket \<Longrightarrow> tree_ok bucket"
  unfolding store_ok_def tx_Bucket_def
  by (auto simp: list_all_iff dest!: map_of_SomeD)

lemma store_ok_CreateBucketIfNotExists:
  "store_ok tx \<Longrightarrow> tx_CreateBucketIfNotExists name tx = (e, tx') \<Longrightarrow> store_ok tx'"
  unfolding tx_CreateBucketIfNotExists_def store_ok_def
  by (auto simp: tree_ok_put list_all_tree_put tree_ok_def [of "[]"] split: if_splits option.splits)

lemma store_ok_bucket_Put:
  "store_ok tx \<Longrightarrow> bucket_Put name key val tx = (e, tx') \<Longrightarrow> store_ok tx'"
  unfolding bucket_Put_def
  by (auto simp: store_ok_in_bucket tree_ok_put split: if_splits)

lemma store_ok_bucket_Delete:
  "store_ok tx \<Longrightarrow> bucket_Delete name key tx = (e, tx') \<Longrightarrow> store_ok tx'"
  unfolding bucket_Delete_def
  by (auto simp: store_ok_in_bucket tree_ok_delete)

lemma store_ok_writeFunc:
  "store_ok tx \<Longrightarrow> writeFunc namespace key val tx = Done (e, u, tx') \<Longrightarrow> store_ok tx'"
  unfolding writeFunc_def
  by (auto split: prod.splits option.splits
           dest: store_ok_CreateBucketIfNotExists store_ok_bucket_Put)

lemma store_ok_WriteMany_loop:
  "store_ok tx \<Longrightarrow> WriteMany_loop nss ks vs i tx = Done (e, u, tx') \<Longrightarrow> store_ok tx'"
proof (induction "length nss - i" arbitrary: i tx)
  case 0
  then show ?case by (simp add: WriteMany_loop_end)
next
  case (Suc d)
  then have i: "i < length nss" by simp
  have r: "store_ok tx2 \<Longrightarrow> WriteMany_loop nss ks vs (Suc i) tx2 = Done (e, u, tx') \<Longrightarrow> store_ok tx'"
    for tx2
    using Suc.hyps(1) [of "Suc i" tx2] Suc.hyps(2) by auto
  obtain e1 tx1 where c: "tx_CreateBucketIfNotExists (nss ! i) tx = (e1, tx1)"
    by (cases "tx_CreateBucketIfNotExists (nss ! i) tx")
  have s1: "store_ok tx1" using store_ok_CreateBucketIfNotExists [OF Suc.prems(1) c] .
  obtain e2 tx2 where p: "bucket_Put (nss ! i) (ks ! i) (vs ! i) tx1 = (e2, tx2)"
    by (cases "bucket_Put (nss ! i) (ks ! i) (vs ! i) tx1")
  have s2: "store_ok tx2" using store_ok_bucket_Put [OF s1 p] .
  from Suc.prems(2) i c p s1 s2 r [OF s2] show ?case
    by (subst (asm) WriteMany_loop.simps) (auto split: option.splits if_splits)
qed

lemma store_ok_call:
  "store_ok tx \<Longrightarrow> call fn tx = (r, tx') \<Longrightarrow> store_ok tx'"
proof (induction fn arbitrary: tx)
  case (Return result err)
  then show ?case by auto
next
  case (TxWrite namespace key val cont)
  obtain err tx1 where w: "boltTx_Write namespace key val tx = (err, tx1)"
    by (cases "boltTx_Write namespace key val tx")
  have s: "store_ok tx1"
    using store_ok_writeFunc [OF TxWrite.prems(1) boltTx_Write_writeFunc [OF w]] .
  have c: "call (cont err) tx1 = (r, tx')" using TxWrite.prems(2) w by simp
  have "cont err \<in> range cont" by simp
  from TxWrite.IH [OF this s c] show ?case .
next
  case (Panics p)
  then show ?case by auto
qed

lemma store_ok_updateTx:
  "store_ok (fst tx) \<Longrightarrow> updateTx tx ns k updater = Done (d, e, tx') \<Longrightarrow> store_ok (fst tx')"
  unfolding updateTx_def Put_in_tx_def
  by (auto split: option.splits go.splits prod.splits dest: store_ok_bucket_Put)

lemma store_ok_db_Update:
  assumes "store_ok (buckets b)"
    and "\<And>e c tx'. fn (buckets b) = Done (e, c, tx') \<Longrightarrow> store_ok tx'"
  shows "store_ok (buckets (snd (db_Update b c0 fn)))"
  using assms
  by (auto simp: db_Update_def tx_Commit_def tx_Rollback_def
           split: go.splits option.splits prod.splits)

lemma store_ok_kept:
  assumes "store_ok (buckets b)"
  shows "store_ok (buckets (snd (Write b ns k v)))"
    and "store_ok (buckets (snd (WriteMany b nss ks vs)))"
    and "store_ok (buckets (snd (Delete b ns k)))"
    and "store_ok (buckets (snd (Execute b fn watchKeys)))"
    and "store_ok (buckets (snd (Update json b ns k vals)))"
    and "store_ok (buckets (snd (UpdateValueAndOperation b ns k updater opNs opKey opUpdater)))"
proof -
  show "store_ok (buckets (snd (Write b ns k v)))"
    using store_ok_db_Update [OF assms, of "writeFunc ns k v" "()"] store_ok_writeFunc [OF assms]
    by (auto simp: Write_def split: prod.splits)
  show "store_ok (buckets (snd (WriteMany b nss ks vs)))"
    using store_ok_db_Update [OF assms, of "WriteMany_loop nss ks vs 0" "()"]
      store_ok_WriteMany_loop [OF assms] assms
    by (auto simp: WriteMany_def split: prod.splits)
  show "store_ok (buckets (snd (Delete b ns k)))"
  proof -
    let ?fn = "\<lambda>tx. case tx_Bucket ns tx of
                     None \<Rightarrow>
                       Done (Some (ErrorNew (''namespace<'' @ ns @ ''> does not exist'')), (), tx)
                   | Some bucket \<Rightarrow>
                       (case bucket_Delete ns k tx of (err, tx') \<Rightarrow> Done (err, (), tx'))"
    have h: "store_ok tx'" if "?fn (buckets b) = Done (e, c, tx')" for e c tx'
      using that assms store_ok_bucket_Delete [OF assms, of ns k]
      by (cases "tx_Bucket ns (buckets b)") (auto split: prod.splits)
    have "store_ok (buckets (snd (db_Update b () ?fn)))"
      by (rule store_ok_db_Update [OF assms]) (rule h)
    then show ?thesis by (cases "db_Update b () ?fn") (simp add: Delete_def)
  qed
  show "store_ok (buckets (snd (Execute b fn watchKeys)))"
    using assms store_ok_call [OF assms, of fn]
    by (auto simp: Execute_def tx_Commit_def tx_Rollback_def
             split: prod.splits go.splits option.splits)
  show "store_ok (buckets (snd (Update json b ns k vals)))"
  proof -
    let ?fn = "in_write_tx (updateTxFn ns k (NewUpdater json vals) None)"
    have h: "store_ok tx'" if "?fn (buckets b) = Done (e, c, tx')" for e c tx'
      using that store_ok_updateTx [of "(buckets b, [])" ns k "NewUpdater json vals"] assms
      by (auto simp: updateTxFn_def in_write_tx_def split: go.splits option.splits prod.splits)
    have "store_ok (buckets (snd (db_Update b None ?fn)))"
      by (rule store_ok_db_Update [OF assms]) (rule h)
    then show ?thesis by (cases "db_Update b None ?fn") (simp add: Update_def)
  qed
  show "store_ok (buckets (snd (UpdateValueAndOperation b ns k updater opNs opKey opUpdater)))"
  proof -
    let ?fn = "\<lambda>tx. case updateTx (tx, []) ns k updater of
                     Panic p \<Rightarrow> Panic p
                   | Done (d, Some err, tx') \<Rightarrow> Done (Some err, (None, None), fst tx')
                   | Done (d, None, tx') \<Rightarrow>
                       (case updateTx tx' opNs opKey (opUpdater d) of
                          Panic p \<Rightarrow> Panic p
                        | Done (d2, Some err, tx'') \<Rightarrow> Done (Some err, (d, None), fst tx'')
                        | Done (d2, None, tx'') \<Rightarrow> Done (None, (d, d2), fst tx''))"
    have h: "store_ok tx'" if f: "?fn (buckets b) = Done (e, c, tx')" for e c tx'
    proof (cases "updateTx (buckets b, []) ns k updater")
      case (Panic p)
      with f show ?thesis by simp
    next
      case (Done x)
      obtain d e1 tx1 where x: "x = (d, e1, tx1)" by (cases x)
      have s1: "store_ok (fst tx1)"
        using store_ok_updateTx [OF _ Done [unfolded x]] assms by simp
      show ?thesis
      proof (cases e1)
        case (Some err)
        with f Done x s1 show ?thesis by simp
      next
        case None
        show ?thesis
        proof (cases "updateTx tx1 opNs opKey (opUpdater d)")
          case (Panic p)
          with f Done x None show ?thesis by simp
        next
          case (Done y)
          obtain d2 e2 tx2 where y: "y = (d2, e2, tx2)" by (cases y)
          have "store_ok (fst tx2)" using store_ok_updateTx [OF s1 Done [unfolded y]] .
          with f \<open>updateTx (buckets b, []) ns k updater = Done x\<close> x None Done y show ?thesis
            by (cases e2) auto
        qed
      qed
    qed
    have "store_ok (buckets (snd (db_Update b (None, None) ?fn)))"
      by (rule store_ok_db_Update [OF assms]) (rule h)
    then show ?thesis
      unfolding UpdateValueAndOperation_closure
      by (cases "db_Update b (None, None) ?fn") simp
  qed
qed

end
